theory Spec2Isabelle
  imports Complex_Main "HOL-Library.AList"
begin

text \<open>
  A model of \<^verbatim>\<open>prometheus_sb6141_exporter.py\<close>, the Prometheus exporter for the status
  and signal pages of a cable modem. Each function of the source is a function
  here, under its name. The state is the exporter object with its metrics and the
  warnings logged. A function that updates metrics returns the exporter after the call
  together with the exception that left it, if any: what was written before an
  exception stays written, as in the source.
\<close>

section \<open>Text: characters, trimming, decimal numbers\<close>

text \<open>
  Python strings are sequences of code points. A \<^typ>\<open>char\<close> stands for one code point
  below 256; on that range the decimal digits (\<^verbatim>\<open>\d\<close>) are \<^verbatim>\<open>0\<close> to \<^verbatim>\<open>9\<close> and the white
  space that \<^verbatim>\<open>str.strip()\<close> removes is the list below.
\<close>

datatype error = ConnectionError | AttributeError | KeyError | ValueError | TypeError | IndexError

definition is_digit :: "char \<Rightarrow> bool" where
  "is_digit c = (c \<in> set ''0123456789'')"

definition is_space :: "char \<Rightarrow> bool" where
  "is_space c = ((of_char c :: nat) \<in> set [9, 10, 11, 12, 13, 28, 29, 30, 31, 32, 133, 160])"

definition strip :: "string \<Rightarrow> string" where
  "strip s = rev (dropWhile is_space (rev (dropWhile is_space s)))"

definition digit_val :: "char \<Rightarrow> nat" where
  "digit_val c = of_char c - 48"

text \<open>The value of a string of decimal digits, most significant digit first.\<close>

definition digits_val :: "string \<Rightarrow> nat" where
  "digits_val s = foldl (\<lambda>acc c. 10 * acc + digit_val c) 0 s"

text \<open>
  \<^verbatim>\<open>int(s)\<close> on a string: surrounding white space is dropped, one sign is allowed, and
  the digits may be separated by single underscores; anything else is a ValueError.
  Integers are unbounded; the interpreter's limit on the number of digits that \<^verbatim>\<open>int\<close>
  converts (\<^verbatim>\<open>sys.set_int_max_str_digits\<close>, 4300 unless it is changed) is a setting of
  the interpreter and not part of the model.
\<close>

fun int_body_ok :: "string \<Rightarrow> bool" where
  "int_body_ok [] = False"
| "int_body_ok [c] = is_digit c"
| "int_body_ok (c # d # cs) =
     (is_digit c \<and> (if d = CHR ''_'' then int_body_ok cs else int_body_ok (d # cs)))"

definition py_int :: "string \<Rightarrow> error + int" where
  "py_int s =
     (let t = strip s;
          neg = (case t of [] \<Rightarrow> False | c # _ \<Rightarrow> c = CHR ''-'');
          body = (case t of [] \<Rightarrow> [] | c # r \<Rightarrow> if c = CHR ''-'' \<or> c = CHR ''+'' then r else t)
      in if int_body_ok body
         then Inr ((if neg then - 1 else 1) * int (digits_val (filter (\<lambda>c. c \<noteq> CHR ''_'') body)))
         else Inl ValueError)"

text \<open>\<^verbatim>\<open>int(x)\<close> where \<^verbatim>\<open>x\<close> is an element's text, which is \<^verbatim>\<open>None\<close> for an element
  without text: \<^verbatim>\<open>int(None)\<close> is a TypeError.\<close>

definition py_int_text :: "string option \<Rightarrow> error + int" where
  "py_int_text x = (case x of None \<Rightarrow> Inl TypeError | Some s \<Rightarrow> py_int s)"

section \<open>Regular expressions\<close>

text \<open>
  The fragment of Python's \<^verbatim>\<open>re\<close> the two patterns of the exporter use: a literal
  text, \<^verbatim>\<open>\d{lo,hi}\<close> (with \<^verbatim>\<open>\d+\<close> as \<^verbatim>\<open>\d{1,}\<close>), concatenation, the greedy
  option \<^verbatim>\<open>(...)?\<close> and the named group \<^verbatim>\<open>(?P<name>...)\<close>. The matcher is the
  backtracking one of \<^verbatim>\<open>re\<close>: it carries the rest of the pattern as a continuation,
  tries the longest repetition first and the option before its absence, and returns the
  first way to match.
\<close>

datatype regex =
    Lits string
  | Digits nat "nat option"
  | Seq regex regex
  | Opt regex
  | Named string regex

type_synonym groups = "(string \<times> string) list"

fun try_counts :: "nat \<Rightarrow> nat \<Rightarrow> (nat \<Rightarrow> 'a option) \<Rightarrow> 'a option" where
  "try_counts lo 0 f = f lo"
| "try_counts lo (Suc k) f =
     (case f (lo + Suc k) of Some r \<Rightarrow> Some r | None \<Rightarrow> try_counts lo k f)"

fun rmatch :: "regex \<Rightarrow> (string \<Rightarrow> groups \<Rightarrow> 'a option) \<Rightarrow> string \<Rightarrow> groups \<Rightarrow> 'a option" where
  "rmatch (Lits w) k s g =
     (if take (length w) s = w then k (drop (length w) s) g else None)"
| "rmatch (Digits lo hi) k s g =
     (let avail = length (takeWhile is_digit s);
          most = (case hi of None \<Rightarrow> avail | Some h \<Rightarrow> min h avail)
      in if most < lo then None else try_counts lo (most - lo) (\<lambda>n. k (drop n s) g))"
| "rmatch (Seq a b) k s g = rmatch a (\<lambda>s' g'. rmatch b k s' g') s g"
| "rmatch (Opt a) k s g =
     (case rmatch a k s g of Some r \<Rightarrow> Some r | None \<Rightarrow> k s g)"
| "rmatch (Named n a) k s g =
     rmatch a (\<lambda>s' g'. k s' ((n, take (length s - length s') s) # g')) s g"

text \<open>\<^verbatim>\<open>pattern.match(s)\<close>: a match anchored at the start of \<open>s\<close>, not at its end. The
  result is the matched text (\<^verbatim>\<open>group()\<close>) and the named groups that took part.\<close>

definition re_match :: "regex \<Rightarrow> string \<Rightarrow> (string \<times> groups) option" where
  "re_match r s = rmatch r (\<lambda>rest g. Some (take (length s - length rest) s, g)) s []"

definition DURATION_RE :: regex where
  "DURATION_RE =
     Seq (Opt (Seq (Named ''days'' (Digits 1 None)) (Lits '' days '')))
    (Seq (Named ''hours'' (Digits 1 None))
    (Seq (Lits ''h:'')
    (Seq (Named ''minutes'' (Digits 1 (Some 2)))
    (Seq (Lits ''m:'')
    (Seq (Named ''seconds'' (Digits 1 (Some 2)))
         (Lits ''s''))))))"

definition FLOAT_RE :: regex where
  "FLOAT_RE = Seq (Digits 1 None) (Opt (Seq (Lits ''.'') (Digits 1 None)))"

section \<open>The schedules and the metric names\<close>

definition SECONDS :: "(string \<times> int) list" where
  "SECONDS = [(''days'', 24 * 60 * 60), (''hours'', 60 * 60), (''minutes'', 60), (''seconds'', 1)]"

definition SIGNAL_DATA :: "(string \<times> string list) list" where
  "SIGNAL_DATA =
     [(''Downstream'',
        [''Frequency'', ''Signal to Noise Ratio'', ''Downstream Modulation'', ''Power Level'']),
      (''Upstream'',
        [''Frequency'', ''Ranging Service ID'', ''Symbol Rate'', ''Power Level'']),
      (''Signal Status (Codewords)'',
        [''Total Unerrored Codewords'', ''Total Correctable Codewords'',
         ''Total Uncorrectable Codewords''])]"

definition TASKS :: "string list" where
  "TASKS =
     [''DOCSIS Downstream Channel Acquisition'',
      ''DOCSIS Ranging'',
      ''Establish IP Connectivity using DHCP'',
      ''Establish Time Of Day'',
      ''Transfer Operational Parameters through TFTP'',
      ''Register Connection'',
      ''Cable Modem Status'',
      ''Initialize Baseline Privacy'']"

definition UPTIME :: string where
  "UPTIME = ''System Up Time''"

definition TIME :: string where
  "TIME = ''Current Time and Date''"

definition TASK_STATES :: "string list" where
  "TASK_STATES = [''Not started'', ''Offline'', ''Done'', ''Operational'', ''Other'']"

definition METRIC_PREFIX :: string where
  "METRIC_PREFIX = ''surfboard''"

text \<open>\<^verbatim>\<open>str.lower()\<close> on code points below 256: the ASCII capitals and the accented
  capitals \<^verbatim>\<open>U+00C0\<close> to \<^verbatim>\<open>U+00DE\<close>, the multiplication sign apart, move up by 32.\<close>

definition lower_char :: "char \<Rightarrow> char" where
  "lower_char c =
     (let n = (of_char c :: nat)
      in if (65 \<le> n \<and> n \<le> 90) \<or> (192 \<le> n \<and> n \<le> 222 \<and> n \<noteq> 215) then char_of (n + 32) else c)"

definition lower :: "string \<Rightarrow> string" where
  "lower s = map lower_char s"

fun join :: "string \<Rightarrow> string list \<Rightarrow> string" where
  "join sep [] = []"
| "join sep [w] = w"
| "join sep (w # ws) = w @ sep @ join sep ws"

definition to_metric :: "string list \<Rightarrow> string" where
  "to_metric words =
     (let words' =
        map (\<lambda>word. strip (map (\<lambda>c. if c = CHR '' '' then CHR ''_'' else c)
                         (filter (\<lambda>c. c \<noteq> CHR '')'') (filter (\<lambda>c. c \<noteq> CHR ''('') word))))
            words
      in lower (join ''_'' (METRIC_PREFIX # words')))"

section \<open>The metrics and the exporter\<close>

text \<open>
  The metric objects of \<^verbatim>\<open>prometheus_client\<close>, as far as the exporter uses them. An Enum
  holds its name, its states and the current one (at first the first state); \<^verbatim>\<open>state(v)\<close>
  raises ValueError for a value that is not one of its states. A Gauge with the label
  \<^verbatim>\<open>channel\<close> holds one value per channel it has seen, created by \<^verbatim>\<open>labels(channel)\<close>;
  the uptime Gauge holds one value. Every metric is registered under its name when it
  is constructed. Gauge values are the exact decimal values: the rounding of \<^verbatim>\<open>float\<close> to
  a binary fraction is not part of the model.
\<close>

record enum_metric =
  enum_name :: string
  enum_states :: "string list"
  enum_state :: string

record channel_gauge =
  cg_name :: string
  cg_children :: "(int \<times> rat) list"

record gauge =
  gauge_name :: string
  gauge_value :: int

datatype warning = Unknown_state string string | Unknown_row string

record exporter =
  tasks :: "(string \<times> enum_metric) list"
  signals :: "((string \<times> string) \<times> channel_gauge) list"
  uptime :: gauge
  refresh_rate :: int
  warnings :: "warning list"

text \<open>\<^verbatim>\<open>SurfboardExporter.__init__\<close>. The list \<open>warnings\<close> is what \<^verbatim>\<open>logger.warning\<close>
  has been given so far, oldest first.\<close>

definition init :: "int \<Rightarrow> exporter" where
  "init rate =
     \<lparr> tasks = map (\<lambda>task. (task, \<lparr> enum_name = to_metric [task], enum_states = TASK_STATES,
                                     enum_state = hd TASK_STATES \<rparr>)) TASKS,
       signals = concat (map (\<lambda>(table, keys).
                    map (\<lambda>key. ((table, key), \<lparr> cg_name = to_metric [table, key], cg_children = [] \<rparr>)) keys)
                  SIGNAL_DATA),
       uptime = \<lparr> gauge_name = to_metric [UPTIME], gauge_value = 0 \<rparr>,
       refresh_rate = rate,
       warnings = [] \<rparr>"

text \<open>The names of the metrics the exporter holds, in the order they were registered.\<close>

definition metric_names :: "exporter \<Rightarrow> string list" where
  "metric_names e =
     map (\<lambda>(k, m). enum_name m) (tasks e) @ map (\<lambda>(k, m). cg_name m) (signals e) @
     [gauge_name (uptime e)]"

text \<open>\<^verbatim>\<open>self.tasks[task].state(value)\<close>: a missing key is a KeyError, and the Enum
  refuses a value outside its states.\<close>

definition task_state :: "exporter \<Rightarrow> string \<Rightarrow> string \<Rightarrow> exporter \<times> error option" where
  "task_state e task v =
     (case map_of (tasks e) task of
        None \<Rightarrow> (e, Some KeyError)
      | Some m \<Rightarrow>
          if v \<in> set (enum_states m)
          then (e\<lparr>tasks := AList.update task (m\<lparr>enum_state := v\<rparr>) (tasks e)\<rparr>, None)
          else (e, Some ValueError))"

definition log_warning :: "exporter \<Rightarrow> warning \<Rightarrow> exporter" where
  "log_warning e w = e\<lparr>warnings := warnings e @ [w]\<rparr>"

section \<open>Pages\<close>

text \<open>
  An element of the tree that \<^verbatim>\<open>lxml.etree.HTML\<close> builds: its tag, its text (\<^verbatim>\<open>None\<close>
  when there is none before the first child) and its children. A fetch either raises
  (\<^verbatim>\<open>session.get\<close> could not reach the device) or returns a response with its \<^verbatim>\<open>ok\<close>
  flag and the tree of its body.
\<close>

datatype elem = Elem (tag: string) (text_of: "string option") (getchildren: "elem list")

datatype fetch = Fetch_raises | Response (ok: bool) (body: elem)

fun iterdescendants :: "elem \<Rightarrow> elem list" where
  "iterdescendants (Elem t x cs) = concat (map (\<lambda>c. c # iterdescendants c) cs)"

text \<open>\<^verbatim>\<open>doc.xpath("//name")\<close>: every element of the document with that tag, in document
  order.\<close>

definition xpath_all :: "string \<Rightarrow> elem \<Rightarrow> elem list" where
  "xpath_all name doc = filter (\<lambda>e. tag e = name) (doc # iterdescendants doc)"

definition findall :: "string \<Rightarrow> elem \<Rightarrow> elem list" where
  "findall name e = filter (\<lambda>c. tag c = name) (getchildren e)"

text \<open>\<^verbatim>\<open>table.findall("tbody/tr")\<close>.\<close>

definition findall_tbody_tr :: "elem \<Rightarrow> elem list" where
  "findall_tbody_tr table = concat (map (findall ''tr'') (findall ''tbody'' table))"

section \<open>The status page\<close>

text \<open>\<^verbatim>\<open>int(v or 0)\<close> for a group of the match: a group that took no part is \<^verbatim>\<open>None\<close>.\<close>

definition int_or_0 :: "string option \<Rightarrow> error + int" where
  "int_or_0 v = (case v of None \<Rightarrow> Inr 0 | Some s \<Rightarrow> if s = [] then Inr 0 else py_int s)"

definition groupdict :: "string list \<Rightarrow> groups \<Rightarrow> (string \<times> string option) list" where
  "groupdict names g = map (\<lambda>n. (n, map_of g n)) names"

fun parts_of :: "(string \<times> string option) list \<Rightarrow> error + (string \<times> int) list" where
  "parts_of [] = Inr []"
| "parts_of ((k, v) # kvs) =
     (case int_or_0 v of
        Inl err \<Rightarrow> Inl err
      | Inr n \<Rightarrow> (case parts_of kvs of Inl err \<Rightarrow> Inl err | Inr ps \<Rightarrow> Inr ((k, n) # ps)))"

fun sum_parts :: "(string \<times> int) list \<Rightarrow> error + int" where
  "sum_parts [] = Inr 0"
| "sum_parts ((unit, num) # ps) =
     (case map_of SECONDS unit of
        None \<Rightarrow> Inl KeyError
      | Some sec \<Rightarrow> (case sum_parts ps of Inl err \<Rightarrow> Inl err | Inr rest \<Rightarrow> Inr (num * sec + rest)))"

text \<open>The uptime branch of \<^verbatim>\<open>update_status\<close>: the seconds in a duration. When the
  pattern does not match, \<^verbatim>\<open>match\<close> returns \<^verbatim>\<open>None\<close> and \<^verbatim>\<open>.groupdict()\<close> on it is an
  AttributeError.\<close>

definition duration_seconds :: "string \<Rightarrow> error + int" where
  "duration_seconds v =
     (case re_match DURATION_RE v of
        None \<Rightarrow> Inl AttributeError
      | Some (whole, g) \<Rightarrow>
          (case parts_of (groupdict [''days'', ''hours'', ''minutes'', ''seconds''] g) of
             Inl err \<Rightarrow> Inl err
           | Inr parts \<Rightarrow> sum_parts parts))"

text \<open>One row of the status page: the body of the loop of \<^verbatim>\<open>update_status\<close>. The
  result is the exporter after the row and the exception the row raised, if any.\<close>

definition truthy :: "string option \<Rightarrow> bool" where
  "truthy v = (case v of None \<Rightarrow> False | Some s \<Rightarrow> s \<noteq> [])"

definition status_row :: "exporter \<Rightarrow> elem \<Rightarrow> exporter \<times> error option" where
  "status_row e row =
     (let values = map text_of (getchildren row)
      in if length values \<noteq> 2 \<or> \<not> list_all truthy values then (e, None)
         else case values of
           [Some a, Some b] \<Rightarrow>
             (let task = strip a; v = strip b
              in if task \<in> set TASKS then
                   (if v \<in> set TASK_STATES then task_state e task v
                    else (case task_state e task ''Other'' of
                            (e', None) \<Rightarrow> (log_warning e' (Unknown_state v task), None)
                          | (e', Some err) \<Rightarrow> (e', Some err)))
                 else if task = TIME then (e, None)
                 else if task = UPTIME then
                   (case duration_seconds v of
                      Inl err \<Rightarrow> (e, Some err)
                    | Inr n \<Rightarrow> (e\<lparr>uptime := (uptime e)\<lparr>gauge_value := n\<rparr>\<rparr>, None))
                 else (log_warning e (Unknown_row task), None))
         | _ \<Rightarrow> (e, None))"

fun status_rows :: "exporter \<Rightarrow> elem list \<Rightarrow> exporter \<times> error option" where
  "status_rows e [] = (e, None)"
| "status_rows e (row # rows) =
     (case status_row e row of
        (e', None) \<Rightarrow> status_rows e' rows
      | (e', Some err) \<Rightarrow> (e', Some err))"

definition update_status :: "exporter \<Rightarrow> fetch \<Rightarrow> exporter \<times> error option" where
  "update_status e resp =
     (case resp of
        Fetch_raises \<Rightarrow> (e, Some ConnectionError)
      | Response okay doc \<Rightarrow>
          if \<not> okay then (e, None) else status_rows e (xpath_all ''tr'' doc))"

section \<open>The signal page\<close>

text \<open>\<^verbatim>\<open>float(match.group())\<close> for the text of a match of \<^verbatim>\<open>FLOAT_RE\<close>: digits, or
  digits, a point and digits.\<close>

definition py_float :: "string \<Rightarrow> rat" where
  "py_float tok =
     (let whole = takeWhile (\<lambda>c. c \<noteq> CHR ''.'') tok;
          frac = drop 1 (dropWhile (\<lambda>c. c \<noteq> CHR ''.'') tok)
      in of_nat (digits_val whole) + of_nat (digits_val frac) / 10 ^ length frac)"

text \<open>The number a cell starts with: \<^verbatim>\<open>FLOAT_RE.match(value)\<close> and, when it matches,
  \<^verbatim>\<open>float(match.group())\<close>.\<close>

definition float_match :: "string \<Rightarrow> rat option" where
  "float_match v =
     (case re_match FLOAT_RE v of None \<Rightarrow> None | Some (whole, g) \<Rightarrow> Some (py_float whole))"

text \<open>The body of the inner loop of \<^verbatim>\<open>update_signal\<close>, for one channel and one cell.
  \<^verbatim>\<open>FLOAT_RE.match(None)\<close> is a TypeError.\<close>

definition set_reading ::
  "exporter \<Rightarrow> string \<Rightarrow> string \<Rightarrow> int \<Rightarrow> string option \<Rightarrow> exporter \<times> error option" where
  "set_reading e table_name key channel v =
     (case v of
        None \<Rightarrow> (e, Some TypeError)
      | Some cell \<Rightarrow>
          (case float_match cell of
             None \<Rightarrow> (e, None)
           | Some x \<Rightarrow>
               (case map_of (signals e) (table_name, key) of
                  None \<Rightarrow> (e, Some KeyError)
                | Some m \<Rightarrow>
                    (e\<lparr>signals := AList.update (table_name, key)
                          (m\<lparr>cg_children := AList.update channel x (cg_children m)\<rparr>)
                          (signals e)\<rparr>, None))))"

text \<open>\<^verbatim>\<open>for channel, value in zip(channel_ids, values, strict=True)\<close>: the pairs are
  handed out one by one, and the ValueError of a strict zip comes when one side ends
  before the other.\<close>

fun zip_strict ::
  "exporter \<Rightarrow> string \<Rightarrow> string \<Rightarrow> int list \<Rightarrow> string option list \<Rightarrow> exporter \<times> error option" where
  "zip_strict e table_name key [] [] = (e, None)"
| "zip_strict e table_name key (c # cs) (v # vs) =
     (case set_reading e table_name key c v of
        (e', None) \<Rightarrow> zip_strict e' table_name key cs vs
      | (e', Some err) \<Rightarrow> (e', Some err))"
| "zip_strict e table_name key [] (v # vs) = (e, Some ValueError)"
| "zip_strict e table_name key (c # cs) [] = (e, Some ValueError)"

text \<open>\<^verbatim>\<open>next((k for k in keys if key.startswith(k)), None)\<close>: with \<^verbatim>\<open>key\<close> being
  \<^verbatim>\<open>None\<close>, the first test is an AttributeError.\<close>

fun first_prefix :: "string list \<Rightarrow> string option \<Rightarrow> error + string option" where
  "first_prefix [] key = Inr None"
| "first_prefix (k # ks) key =
     (case key of
        None \<Rightarrow> Inl AttributeError
      | Some label \<Rightarrow> if take (length k) label = k then Inr (Some k) else first_prefix ks key)"

text \<open>One data row: the body of the loop over \<^verbatim>\<open>rows\<close>. Unpacking a row without cells
  is a ValueError, and \<^verbatim>\<open>SIGNAL_DATA[table_name]\<close> is a KeyError for a name that is not
  in the schedule.\<close>

definition signal_row ::
  "exporter \<Rightarrow> string \<Rightarrow> int list \<Rightarrow> elem \<Rightarrow> exporter \<times> error option" where
  "signal_row e table_name channel_ids row =
     (case map text_of (findall ''td'' row) of
        [] \<Rightarrow> (e, Some ValueError)
      | key # values \<Rightarrow>
          (case map_of SIGNAL_DATA table_name of
             None \<Rightarrow> (e, Some KeyError)
           | Some keys \<Rightarrow>
               (case first_prefix keys key of
                  Inl err \<Rightarrow> (e, Some err)
                | Inr None \<Rightarrow> (e, None)
                | Inr (Some k) \<Rightarrow>
                    if k = [] then (e, None) else zip_strict e table_name k channel_ids values)))"

fun signal_rows ::
  "exporter \<Rightarrow> string \<Rightarrow> int list \<Rightarrow> elem list \<Rightarrow> exporter \<times> error option" where
  "signal_rows e table_name channel_ids [] = (e, None)"
| "signal_rows e table_name channel_ids (row # rows) =
     (case signal_row e table_name channel_ids row of
        (e', None) \<Rightarrow> signal_rows e' table_name channel_ids rows
      | (e', Some err) \<Rightarrow> (e', Some err))"

text \<open>\<^verbatim>\<open>[i.text.strip() for i in header.iterdescendants() if i.text]\<close>.\<close>

definition header_names :: "elem \<Rightarrow> string list" where
  "header_names header =
     concat (map (\<lambda>i. case text_of i of
                         None \<Rightarrow> []
                       | Some t \<Rightarrow> if t = [] then [] else [strip t])
                 (iterdescendants header))"

text \<open>\<^verbatim>\<open>[int(i.text) for i in cells]\<close>, stopping at the first cell that \<^verbatim>\<open>int\<close> refuses.\<close>

fun ints_of :: "string option list \<Rightarrow> error + int list" where
  "ints_of [] = Inr []"
| "ints_of (x # xs) =
     (case py_int_text x of
        Inl err \<Rightarrow> Inl err
      | Inr n \<Rightarrow> (case ints_of xs of Inl err \<Rightarrow> Inl err | Inr ns \<Rightarrow> Inr (n # ns)))"

text \<open>One table: the body of the loop over the tables of the page.\<close>

definition signal_table :: "exporter \<Rightarrow> elem \<Rightarrow> exporter \<times> error option" where
  "signal_table e table =
     (let table_rows = findall_tbody_tr table
      in if length table_rows < 3 then (e, None)
         else case table_rows of
           header # channels # rows \<Rightarrow>
             (case header_names header of
                [] \<Rightarrow> (e, Some IndexError)
              | table_name # _ \<Rightarrow>
                  (case ints_of (map text_of (drop 1 (findall ''td'' channels))) of
                     Inl err \<Rightarrow> (e, Some err)
                   | Inr channel_ids \<Rightarrow> signal_rows e table_name channel_ids rows))
         | _ \<Rightarrow> (e, None))"

fun signal_tables :: "exporter \<Rightarrow> elem list \<Rightarrow> exporter \<times> error option" where
  "signal_tables e [] = (e, None)"
| "signal_tables e (table # tables) =
     (case signal_table e table of
        (e', None) \<Rightarrow> signal_tables e' tables
      | (e', Some err) \<Rightarrow> (e', Some err))"

definition update_signal :: "exporter \<Rightarrow> fetch \<Rightarrow> exporter \<times> error option" where
  "update_signal e resp =
     (case resp of
        Fetch_raises \<Rightarrow> (e, Some ConnectionError)
      | Response okay doc \<Rightarrow>
          if \<not> okay then (e, None) else signal_tables e (xpath_all ''table'' doc))"

section \<open>The poll loop\<close>

text \<open>
  One turn of \<^verbatim>\<open>main_loop\<close> fetches and reads the status page, then the signal page; an
  exception ends the turn where it is raised. The loop itself never ends: it is given
  here the fetches of its first turns, and runs them until one raises, which ends the
  program since nothing catches it. The sleep between two turns changes no metric.
\<close>

definition poll :: "exporter \<Rightarrow> fetch \<times> fetch \<Rightarrow> exporter \<times> error option" where
  "poll e pages =
     (case update_status e (fst pages) of
        (e', None) \<Rightarrow> update_signal e' (snd pages)
      | (e', Some err) \<Rightarrow> (e', Some err))"

fun main_loop :: "exporter \<Rightarrow> (fetch \<times> fetch) list \<Rightarrow> exporter \<times> error option" where
  "main_loop e [] = (e, None)"
| "main_loop e (pages # later) =
     (case poll e pages of
        (e', None) \<Rightarrow> main_loop e' later
      | (e', Some err) \<Rightarrow> (e', Some err))"

section \<open>Reading a pattern from left to right\<close>



section \<open>What construction fixes\<close>

text \<open>
  The part of an exporter that \<^verbatim>\<open>__init__\<close> sets and that is meant to stay: the keys of
  the two dictionaries with the name (and the states) of each metric, the name of the
  uptime gauge, and the refresh rate.
\<close>

definition registry :: "exporter \<Rightarrow>
    (string \<times> string \<times> string list) list \<times> ((string \<times> string) \<times> string) list \<times> string \<times> int" where
  "registry e =
     (map (\<lambda>(k, m). (k, enum_name m, enum_states m)) (tasks e),
      map (\<lambda>(k, m). (k, cg_name m)) (signals e),
      gauge_name (uptime e),
      refresh_rate e)"

section \<open>Pages for the examples\<close>

text \<open>Small trees of the shape the device serves: cells with a text, rows of cells, a
  table with its rows under one \<^verbatim>\<open>tbody\<close>, and a page with its tables in the body.\<close>

definition ex_td :: "string \<Rightarrow> elem" where
  "ex_td s = Elem ''td'' (Some s) []"

definition ex_th :: "string \<Rightarrow> elem" where
  "ex_th s = Elem ''th'' (Some s) []"

definition ex_tr :: "elem list \<Rightarrow> elem" where
  "ex_tr cells = Elem ''tr'' None cells"

definition ex_table :: "elem list \<Rightarrow> elem" where
  "ex_table rows = Elem ''table'' None [Elem ''tbody'' None rows]"

definition ex_page :: "elem list \<Rightarrow> elem" where
  "ex_page es = Elem ''html'' None [Elem ''body'' None es]"

lemmas ex_defs = ex_td_def ex_th_def ex_tr_def ex_table_def ex_page_def

section \<open>Results\<close>

subsection \<open>What an update keeps\<close>

lemma map_update_same:
  "map_of al k = Some m \<Longrightarrow> f m' = f m \<Longrightarrow>
     map (\<lambda>(k, m). (k, f m)) (AList.update k m' al) = map (\<lambda>(k, m). (k, f m)) al"
  by (induction al) (auto split: if_splits)

lemma registry_task_state: "registry (fst (task_state e task v)) = registry e"
  by (auto simp: task_state_def registry_def split: option.splits
      intro!: map_update_same [where f = "\<lambda>m. (enum_name m, enum_states m)"])

lemma registry_log_warning: "registry (log_warning e w) = registry e"
  by (simp add: log_warning_def registry_def)

lemma registry_status_row: "registry (fst (status_row e row)) = registry e"
proof -
  have up: "\<And>n. registry (e\<lparr>uptime := (uptime e)\<lparr>gauge_value := n\<rparr>\<rparr>) = registry e"
    by (simp add: registry_def)
  have ts: "\<And>t v e' x. task_state e t v = (e', x) \<Longrightarrow> registry e' = registry e"
    using registry_task_state by (metis fst_conv)
  show ?thesis
    unfolding status_row_def Let_def
    by (auto simp: registry_task_state registry_log_warning up
        split: list.splits option.splits prod.splits sum.splits dest: ts)
qed

lemma registry_status_rows: "registry (fst (status_rows e rows)) = registry e"
proof (induction rows arbitrary: e)
  case Nil
  show ?case by simp
next
  case (Cons row rows)
  obtain e' x where r: "status_row e row = (e', x)" by (cases "status_row e row")
  then have "registry e' = registry e" using registry_status_row [of e row] by simp
  with Cons r show ?case by (cases x) auto
qed

lemma registry_update_status: "registry (fst (update_status e resp)) = registry e"
  by (cases resp) (auto simp: update_status_def registry_status_rows)

lemma registry_set_reading: "registry (fst (set_reading e tn k c v)) = registry e"
  by (auto simp: set_reading_def registry_def split: option.splits
      intro!: map_update_same [where f = cg_name])

lemma registry_zip_strict: "registry (fst (zip_strict e tn k cs vs)) = registry e"
proof (induction e tn k cs vs rule: zip_strict.induct)
  case (2 e tn k c cs v vs)
  obtain e' x where r: "set_reading e tn k c v = (e', x)" by (cases "set_reading e tn k c v")
  then have "registry e' = registry e" using registry_set_reading [of e tn k c v] by simp
  with 2 r show ?case by (cases x) auto
qed simp_all

lemma registry_signal_row: "registry (fst (signal_row e tn cids row)) = registry e"
  by (auto simp: signal_row_def registry_zip_strict split: list.splits option.splits sum.splits)

lemma registry_signal_rows: "registry (fst (signal_rows e tn cids rows)) = registry e"
proof (induction rows arbitrary: e)
  case Nil
  show ?case by simp
next
  case (Cons row rows)
  obtain e' x where r: "signal_row e tn cids row = (e', x)" by (cases "signal_row e tn cids row")
  then have "registry e' = registry e" using registry_signal_row [of e tn cids row] by simp
  with Cons r show ?case by (cases x) auto
qed

lemma registry_signal_table: "registry (fst (signal_table e table)) = registry e"
  by (auto simp: signal_table_def Let_def registry_signal_rows split: list.splits sum.splits)

lemma registry_signal_tables: "registry (fst (signal_tables e tables)) = registry e"
proof (induction tables arbitrary: e)
  case Nil
  show ?case by simp
next
  case (Cons t ts)
  obtain e' x where r: "signal_table e t = (e', x)" by (cases "signal_table e t")
  then have "registry e' = registry e" using registry_signal_table [of e t] by simp
  with Cons r show ?case by (cases x) auto
qed

lemma registry_update_signal: "registry (fst (update_signal e resp)) = registry e"
  by (cases resp) (auto simp: update_signal_def registry_signal_tables)

lemma registry_poll: "registry (fst (poll e pages)) = registry e"
proof -
  obtain e' x where r: "update_status e (fst pages) = (e', x)" by (cases "update_status e (fst pages)")
  then have "registry e' = registry e" using registry_update_status [of e "fst pages"] by simp
  with r show ?thesis by (cases x) (auto simp: poll_def registry_update_signal)
qed

lemma registry_main_loop: "registry (fst (main_loop e polls)) = registry e"
proof (induction polls arbitrary: e)
  case Nil
  show ?case by simp
next
  case (Cons p ps)
  obtain e' x where r: "poll e p = (e', x)" by (cases "poll e p")
  then have "registry e' = registry e" using registry_poll [of e p] by simp
  with Cons r show ?case by (cases x) auto
qed

lemma metric_names_registry:
  "metric_names e =
     (case registry e of (ts, ss, u, r) \<Rightarrow> map (\<lambda>(k, n, s). n) ts @ map (\<lambda>(k, n). n) ss @ [u])"
  by (simp add: metric_names_def registry_def case_prod_unfold comp_def)

lemma metric_names_init:
  "metric_names (init rate) =
     map (\<lambda>task. to_metric [task]) TASKS @
     concat (map (\<lambda>(table, keys). map (\<lambda>key. to_metric [table, key]) keys) SIGNAL_DATA) @
     [to_metric [UPTIME]]"
  by (simp add: metric_names_def init_def comp_def map_concat case_prod_unfold)

lemma metric_names_init_30: "metric_names (init 30) =
  [''surfboard_docsis_downstream_channel_acquisition'', ''surfboard_docsis_ranging'',
   ''surfboard_establish_ip_connectivity_using_dhcp'', ''surfboard_establish_time_of_day'',
   ''surfboard_transfer_operational_parameters_through_tftp'', ''surfboard_register_connection'',
   ''surfboard_cable_modem_status'', ''surfboard_initialize_baseline_privacy'',
   ''surfboard_downstream_frequency'', ''surfboard_downstream_signal_to_noise_ratio'',
   ''surfboard_downstream_downstream_modulation'', ''surfboard_downstream_power_level'',
   ''surfboard_upstream_frequency'', ''surfboard_upstream_ranging_service_id'',
   ''surfboard_upstream_symbol_rate'', ''surfboard_upstream_power_level'',
   ''surfboard_signal_status_codewords_total_unerrored_codewords'',
   ''surfboard_signal_status_codewords_total_correctable_codewords'',
   ''surfboard_signal_status_codewords_total_uncorrectable_codewords'',
   ''surfboard_system_up_time'']"
  by (simp add: metric_names_def init_def to_metric_def TASKS_def SIGNAL_DATA_def UPTIME_def
      METRIC_PREFIX_def strip_def is_space_def lower_def lower_char_def char_of_def bit_0)


text \<open>
  Claim C8. The names of the metrics are those \<^verbatim>\<open>__init__\<close> computes from the task
  schedule, the signal schedule and the uptime label, and no update changes them:
  \<^verbatim>\<open>update_status\<close>, \<^verbatim>\<open>update_signal\<close> and any number of turns of \<^verbatim>\<open>main_loop\<close>,
  whatever the pages hold and whether or not an exception ends them, leave the list of
  names as it was.
\<close>

theorem metric_names_fixed:
  "metric_names (init rate) =
     map (\<lambda>task. to_metric [task]) TASKS @
     concat (map (\<lambda>(table, keys). map (\<lambda>key. to_metric [table, key]) keys) SIGNAL_DATA) @
     [to_metric [UPTIME]] \<and>
   metric_names (fst (update_status e resp)) = metric_names e \<and>
   metric_names (fst (update_signal e resp)) = metric_names e \<and>
   metric_names (fst (main_loop e polls)) = metric_names e"
proof (intro conjI)
  show "metric_names (init rate) =
     map (\<lambda>task. to_metric [task]) TASKS @
     concat (map (\<lambda>(table, keys). map (\<lambda>key. to_metric [table, key]) keys) SIGNAL_DATA) @
     [to_metric [UPTIME]]"
    by (rule metric_names_init)
qed (simp_all add: metric_names_registry registry_update_status registry_update_signal
      registry_main_loop)

theorem metric_names_fixed_witness:
  "metric_names (fst (main_loop (init 30)
     [(Response True (ex_page [ex_table [ex_tr [ex_td ''Cable Modem Status'', ex_td ''Booting'']]]),
       Response True (ex_page [ex_table
          [ex_tr [ex_th ''Downstream''], ex_tr [ex_td ''Channel ID'', ex_td ''1''],
           ex_tr [ex_td ''Power Level'', ex_td ''5.1 dBmV'']]])),
      (Fetch_raises, Fetch_raises)])) =
   [''surfboard_docsis_downstream_channel_acquisition'', ''surfboard_docsis_ranging'',
    ''surfboard_establish_ip_connectivity_using_dhcp'', ''surfboard_establish_time_of_day'',
    ''surfboard_transfer_operational_parameters_through_tftp'', ''surfboard_register_connection'',
    ''surfboard_cable_modem_status'', ''surfboard_initialize_baseline_privacy'',
    ''surfboard_downstream_frequency'', ''surfboard_downstream_signal_to_noise_ratio'',
    ''surfboard_downstream_downstream_modulation'', ''surfboard_downstream_power_level'',
    ''surfboard_upstream_frequency'', ''surfboard_upstream_ranging_service_id'',
    ''surfboard_upstream_symbol_rate'', ''surfboard_upstream_power_level'',
    ''surfboard_signal_status_codewords_total_unerrored_codewords'',
    ''surfboard_signal_status_codewords_total_correctable_codewords'',
    ''surfboard_signal_status_codewords_total_uncorrectable_codewords'',
    ''surfboard_system_up_time'']"
proof -
  let ?polls = "[(Response True (ex_page [ex_table [ex_tr [ex_td ''Cable Modem Status'', ex_td ''Booting'']]]),
       Response True (ex_page [ex_table
          [ex_tr [ex_th ''Downstream''], ex_tr [ex_td ''Channel ID'', ex_td ''1''],
           ex_tr [ex_td ''Power Level'', ex_td ''5.1 dBmV'']]])),
      (Fetch_raises, Fetch_raises)]"
  have "metric_names (fst (main_loop (init 30) ?polls)) = metric_names (init 30)"
    using metric_names_fixed [of 30 "init 30" Fetch_raises ?polls] by blast
  then show ?thesis by (simp only: metric_names_init_30)
qed

subsection \<open>Tables with fewer than three rows\<close>

text \<open>
  Claim C9. A table of the signal page with fewer than three rows is skipped: whatever
  its rows hold, no channel id is read, the exporter is left as it was, no exception is
  raised, and the loop goes on with the next table.
\<close>

theorem short_table_skipped:
  "length (findall_tbody_tr table) < 3 \<Longrightarrow>
     signal_table e table = (e, None) \<and>
     signal_tables e (table # tables) = signal_tables e tables"
  by (simp add: signal_table_def)

theorem short_table_skipped_witness:
  "length (findall_tbody_tr
      (ex_table [ex_tr [ex_th ''Downstream''], ex_tr [ex_td ''Channel ID'', ex_td ''one'']])) < 3 \<and>
   signal_table (init 30)
      (ex_table [ex_tr [ex_th ''Downstream''], ex_tr [ex_td ''Channel ID'', ex_td ''one'']])
     = (init 30, None) \<and>
   signal_tables (init 30)
      [ex_table [ex_tr [ex_th ''Downstream''], ex_tr [ex_td ''Channel ID'', ex_td ''one'']]]
     = signal_tables (init 30) []"
proof -
  have short: "length (findall_tbody_tr
      (ex_table [ex_tr [ex_th ''Downstream''], ex_tr [ex_td ''Channel ID'', ex_td ''one'']])) < 3"
    by (simp add: findall_tbody_tr_def findall_def ex_defs)
  from short short_table_skipped [OF short, of "init 30" "[]"] show ?thesis
    by blast
qed

subsection \<open>A fetch that fails\<close>




subsection \<open>The matcher on digits followed by a literal\<close>



lemma try_counts_top_Some:
  "f (lo + j) = Some r \<Longrightarrow> try_counts lo j f = Some r"
  by (cases j) simp_all



lemma take_takeWhile: "take (length s - length (dropWhile P s)) s = takeWhile P s"
proof -
  have "length s = length (takeWhile P s) + length (dropWhile P s)"
    by (metis length_append takeWhile_dropWhile_id)
  then have "length s - length (dropWhile P s) = length (takeWhile P s)" by simp
  then show ?thesis by (metis takeWhile_eq_take)
qed
















subsection \<open>Durations\<close>



















subsection \<open>Numbers at the start of a cell\<close>

lemma rmatch_Digits_greedy:
  assumes "lo \<le> length (takeWhile is_digit s)" "k (dropWhile is_digit s) g = Some r"
  shows "rmatch (Digits lo None) k s g = Some r"
proof -
  let ?n = "length (takeWhile is_digit s)"
  have "k (drop (lo + (?n - lo)) s) g = Some r"
    using assms by (simp add: dropWhile_eq_drop)
  then have "try_counts lo (?n - lo) (\<lambda>n. k (drop n s) g) = Some r"
    by (rule try_counts_top_Some)
  with assms(1) show ?thesis by simp
qed

lemma rmatch_Digits_none:
  "length (takeWhile is_digit s) < lo \<Longrightarrow> rmatch (Digits lo None) k s g = None"
  by simp

lemma rmatch_frac:
  assumes tot: "\<And>rest. k rest g \<noteq> None"
  shows "rmatch (Opt (Seq (Lits ''.'') (Digits 1 None))) k s g =
     (case s of
        [] \<Rightarrow> k [] g
      | c # x \<Rightarrow>
          if c = CHR ''.'' \<and> takeWhile is_digit x \<noteq> [] then k (dropWhile is_digit x) g else k s g)"
proof -
  have step: "rmatch (Opt (Seq (Lits ''.'') (Digits 1 None))) k s g =
     (case (if take 1 s = ''.'' then rmatch (Digits 1 None) k (drop 1 s) g else None) of
        Some r \<Rightarrow> Some r | None \<Rightarrow> k s g)"
    by (simp del: rmatch.simps(2))
  show ?thesis
  proof (cases s)
    case Nil
    with step show ?thesis by (simp del: rmatch.simps)
  next
    case (Cons c x)
    show ?thesis
    proof (cases "c = CHR ''.''")
      case dot: True
      show ?thesis
      proof (cases "takeWhile is_digit x = []")
        case True
        then have "rmatch (Digits 1 None) k x g = None"
          by (intro rmatch_Digits_none) simp
        with step Cons dot True show ?thesis by (simp del: rmatch.simps)
      next
        case False
        then have lo: "1 \<le> length (takeWhile is_digit x)" by (cases "takeWhile is_digit x") auto
        obtain res where res: "k (dropWhile is_digit x) g = Some res"
          using tot [of "dropWhile is_digit x"] by auto
        have "rmatch (Digits 1 None) k x g = Some res"
          using lo res by (rule rmatch_Digits_greedy)
        with step Cons dot False res show ?thesis by (simp del: rmatch.simps)
      qed
    next
      case False
      with step Cons show ?thesis by (simp del: rmatch.simps)
    qed
  qed
qed

text \<open>The text a match of \<open>FLOAT_RE\<close> covers.\<close>

lemma re_match_FLOAT:
  "re_match FLOAT_RE v =
     (let d = takeWhile is_digit v; r = dropWhile is_digit v
      in if d = [] then None
         else case r of
           [] \<Rightarrow> Some (d, [])
         | c # x \<Rightarrow>
             if c = CHR ''.'' \<and> takeWhile is_digit x \<noteq> []
             then Some (d @ ''.'' @ takeWhile is_digit x, [])
             else Some (d, []))"
proof -
  let ?d = "takeWhile is_digit v" and ?r = "dropWhile is_digit v"
  let ?K = "\<lambda>rest g. Some (take (length v - length rest) v, g :: groups)"
  let ?frac = "Opt (Seq (Lits ''.'') (Digits 1 None))"
  have v: "v = ?d @ ?r" by simp
  have whole: "take (length v - length ?r) v = ?d" by (rule take_takeWhile)
  have unf: "re_match FLOAT_RE v = rmatch (Digits 1 None) (\<lambda>s' g'. rmatch ?frac ?K s' g') v []"
    by (simp only: re_match_def FLOAT_RE_def rmatch.simps(3))
  show ?thesis
  proof (cases "?d = []")
    case True
    then have "rmatch (Digits 1 None) (\<lambda>s' g'. rmatch ?frac ?K s' g') v [] = None"
      by (intro rmatch_Digits_none) simp
    with True unf show ?thesis by (simp add: Let_def del: rmatch.simps)
  next
    case False
    then have lo: "1 \<le> length ?d" by (cases ?d) auto
    have part: "take (length v - length (dropWhile is_digit x)) v = ?d @ ''.'' @ takeWhile is_digit x"
      if r: "?r = CHR ''.'' # x" for x
    proof -
      have vx: "v = (?d @ ''.'' @ takeWhile is_digit x) @ dropWhile is_digit x"
        using v r by simp
      have "length v - length (dropWhile is_digit x) = length (?d @ ''.'' @ takeWhile is_digit x)"
        by (subst vx) (simp del: takeWhile_dropWhile_id)
      moreover have "take (length (?d @ ''.'' @ takeWhile is_digit x)) v = ?d @ ''.'' @ takeWhile is_digit x"
        by (subst vx) (simp only: append_eq_conv_conj [symmetric] take_all_iff take_append, simp del: takeWhile_dropWhile_id)
      ultimately show ?thesis by (simp only:)
    qed
    have gen: "rmatch ?frac ?K r [] =
      (case r of [] \<Rightarrow> Some (?d, [])
       | c # x \<Rightarrow> if c = CHR ''.'' \<and> takeWhile is_digit x \<noteq> []
                  then Some (?d @ ''.'' @ takeWhile is_digit x, []) else Some (?d, []))"
      if w: "take (length v - length r) v = ?d"
        and p: "\<And>x. r = CHR ''.'' # x \<Longrightarrow>
          take (length v - length (dropWhile is_digit x)) v = ?d @ ''.'' @ takeWhile is_digit x"
      for r
    proof (cases r)
      case Nil
      with w show ?thesis by (subst rmatch_frac) (simp_all del: rmatch.simps)
    next
      case (Cons c x)
      show ?thesis
      proof (cases "c = CHR ''.''")
        case True
        with Cons w p [of x] show ?thesis by (subst rmatch_frac) (simp_all del: rmatch.simps)
      next
        case False
        with Cons w show ?thesis by (subst rmatch_frac) (simp_all del: rmatch.simps)
      qed
    qed
    have frac: "rmatch ?frac ?K ?r [] =
      (case ?r of [] \<Rightarrow> Some (?d, [])
       | c # x \<Rightarrow> if c = CHR ''.'' \<and> takeWhile is_digit x \<noteq> []
                  then Some (?d @ ''.'' @ takeWhile is_digit x, []) else Some (?d, []))"
      using whole part by (rule gen)
    have "\<exists>res. rmatch ?frac ?K ?r [] = Some res"
      unfolding frac by (simp split: list.splits)
    then obtain res where res: "rmatch ?frac ?K ?r [] = Some res" ..
    have "rmatch (Digits 1 None) (\<lambda>s' g'. rmatch ?frac ?K s' g') v [] = Some res"
      by (rule rmatch_Digits_greedy [OF lo]) (rule res)
    with unf res have "re_match FLOAT_RE v = rmatch ?frac ?K ?r []"
      by (simp only:)
    with frac False show ?thesis by (simp add: Let_def del: rmatch.simps)
  qed
qed

lemma digit_not_dot: "is_digit c \<Longrightarrow> c \<noteq> CHR ''.''"
  by (auto simp: is_digit_def)

lemma digits_val_Nil: "digits_val [] = 0"
  by (simp add: digits_val_def)

lemma py_float_whole:
  assumes "list_all is_digit d"
  shows "py_float d = of_nat (digits_val d)"
proof -
  have nd: "\<forall>c\<in>set d. c \<noteq> CHR ''.''" using assms by (auto simp: list_all_iff digit_not_dot)
  have tw: "takeWhile (\<lambda>c. c \<noteq> CHR ''.'') d = d" using nd by simp
  have dw: "dropWhile (\<lambda>c. c \<noteq> CHR ''.'') d = []" using nd by simp
  show ?thesis unfolding py_float_def Let_def tw dw by (simp add: digits_val_Nil)
qed

lemma py_float_frac:
  assumes "list_all is_digit d"
  shows "py_float (d @ CHR ''.'' # f) = of_nat (digits_val d) + of_nat (digits_val f) / 10 ^ length f"
proof -
  have nd: "\<forall>c\<in>set d. c \<noteq> CHR ''.''" using assms by (auto simp: list_all_iff digit_not_dot)
  have tw: "takeWhile (\<lambda>c. c \<noteq> CHR ''.'') (d @ CHR ''.'' # f) = d"
    using nd by (simp add: takeWhile_append2)
  have dw: "dropWhile (\<lambda>c. c \<noteq> CHR ''.'') (d @ CHR ''.'' # f) = CHR ''.'' # f"
    using nd by (simp add: dropWhile_append2)
  show ?thesis unfolding py_float_def Let_def tw dw by simp
qed

lemma float_match_cases:
  "float_match v =
     (let d = takeWhile is_digit v; r = dropWhile is_digit v
      in if d = [] then None
         else case r of
           [] \<Rightarrow> Some (of_nat (digits_val d))
         | c # x \<Rightarrow>
             if c = CHR ''.'' \<and> takeWhile is_digit x \<noteq> []
             then Some (of_nat (digits_val d) +
                        of_nat (digits_val (takeWhile is_digit x)) / 10 ^ length (takeWhile is_digit x))
             else Some (of_nat (digits_val d)))"
proof -
  have gen: "(case (if d = [] then None
         else case r of
           [] \<Rightarrow> Some (d, [])
         | c # x \<Rightarrow>
             if c = CHR ''.'' \<and> takeWhile is_digit x \<noteq> []
             then Some (d @ ''.'' @ takeWhile is_digit x, [])
             else Some (d, [])) of None \<Rightarrow> None | Some (whole, g :: groups) \<Rightarrow> Some (py_float whole)) =
      (if d = [] then None
         else case r of
           [] \<Rightarrow> Some (of_nat (digits_val d))
         | c # x \<Rightarrow>
             if c = CHR ''.'' \<and> takeWhile is_digit x \<noteq> []
             then Some (of_nat (digits_val d) +
                        of_nat (digits_val (takeWhile is_digit x)) / 10 ^ length (takeWhile is_digit x))
             else Some (of_nat (digits_val d)))"
    if "list_all is_digit d" for d r
    by (cases r) (simp_all add: py_float_whole [OF that] py_float_frac [OF that])
  have d: "list_all is_digit (takeWhile is_digit v)"
    by (simp add: list_all_iff) (metis set_takeWhileD)
  show ?thesis
    unfolding float_match_def re_match_FLOAT Let_def by (rule gen [OF d])
qed






subsection \<open>Task rows of the status page\<close>

lemma map_of_same_shape:
  "map (\<lambda>(k, m). (k, f m)) al = map (\<lambda>(k, m). (k, f m)) bl \<Longrightarrow>
     map_option f (map_of al k) = map_option f (map_of bl k)"
proof (induction al arbitrary: bl)
  case Nil
  then show ?case by simp
next
  case (Cons p al)
  then obtain q bl' where bl: "bl = q # bl'" by (cases bl) auto
  with Cons.prems have "fst p = fst q" "f (snd p) = f (snd q)"
    "map (\<lambda>(k, m). (k, f m)) al = map (\<lambda>(k, m). (k, f m)) bl'"
    by (auto simp: case_prod_unfold)
  with Cons.IH [of bl'] bl show ?case by (cases p; cases q) auto
qed

lemma map_of_tabulate:
  "map_of (map (\<lambda>k. (k, f k)) xs) k = (if k \<in> set xs then Some (f k) else None)"
  by (induction xs) auto

lemma registered_task:
  assumes "registry e = registry (init rate)" "task \<in> set TASKS"
  shows "\<exists>m. map_of (tasks e) task = Some m \<and> enum_states m = TASK_STATES"
proof -
  have "map (\<lambda>(k, m). (k, enum_name m, enum_states m)) (tasks e) =
        map (\<lambda>(k, m). (k, enum_name m, enum_states m)) (tasks (init rate))"
    using assms(1) by (simp add: registry_def)
  then have "map_option (\<lambda>m. (enum_name m, enum_states m)) (map_of (tasks e) task) =
             map_option (\<lambda>m. (enum_name m, enum_states m)) (map_of (tasks (init rate)) task)"
    by (rule map_of_same_shape)
  moreover have "map_of (tasks (init rate)) task =
      Some \<lparr> enum_name = to_metric [task], enum_states = TASK_STATES, enum_state = hd TASK_STATES \<rparr>"
    using assms(2) by (simp add: init_def map_of_tabulate)
  ultimately show ?thesis by auto
qed

lemma task_state_sets:
  assumes "map_of (tasks e) task = Some m" "v \<in> set (enum_states m)"
  shows "\<exists>e'. task_state e task v = (e', None) \<and>
           map_option enum_state (map_of (tasks e') task) = Some v \<and>
           (\<forall>t. t \<noteq> task \<longrightarrow> map_of (tasks e') t = map_of (tasks e) t) \<and>
           signals e' = signals e \<and> uptime e' = uptime e \<and> warnings e' = warnings e"
  using assms by (simp add: task_state_def update_conv')

text \<open>
  Claim C5. A row of the status page with exactly two cells, both with a text that is
  not empty, whose label (trimmed, as the code compares it) is a task of the schedule:
  when the value (trimmed) is one of the task states, the state of that task becomes
  this value and nothing is logged; otherwise the state becomes \<^verbatim>\<open>Other\<close> and one
  warning is logged. Either way the row raises nothing, the other tasks, the signal
  readings and the uptime stay as they were, and the loop goes on with the next row.
  The exporter is any one with the metrics that \<^verbatim>\<open>__init__\<close> registers.
\<close>

theorem task_row_sets_state:
  assumes "getchildren row = [a, b]" "text_of a = Some ta" "text_of b = Some tb"
    and "ta \<noteq> []" "tb \<noteq> []"
    and "strip ta = task" "task \<in> set TASKS" "strip tb = v"
    and "registry e = registry (init rate)"
  shows "\<exists>e'. status_row e row = (e', None) \<and>
           status_rows e (row # rows) = status_rows e' rows \<and>
           map_option enum_state (map_of (tasks e') task) =
             Some (if v \<in> set TASK_STATES then v else ''Other'') \<and>
           warnings e' =
             (if v \<in> set TASK_STATES then warnings e else warnings e @ [Unknown_state v task]) \<and>
           (\<forall>t. t \<noteq> task \<longrightarrow> map_of (tasks e') t = map_of (tasks e) t) \<and>
           signals e' = signals e \<and> uptime e' = uptime e"
proof -
  obtain m where m: "map_of (tasks e) task = Some m" "enum_states m = TASK_STATES"
    using registered_task [OF assms(9) assms(7)] by blast
  show ?thesis
  proof (cases "v \<in> set TASK_STATES")
    case True
    then obtain e' where e': "task_state e task v = (e', None)"
      "map_option enum_state (map_of (tasks e') task) = Some v"
      "\<forall>t. t \<noteq> task \<longrightarrow> map_of (tasks e') t = map_of (tasks e) t"
      "signals e' = signals e" "uptime e' = uptime e" "warnings e' = warnings e"
      using task_state_sets [OF m(1), of v] m(2) by auto
    have "status_row e row = (e', None)"
      using assms(1-8) True e'(1) by (simp add: status_row_def truthy_def)
    with e' True show ?thesis by simp
  next
    case False
    have "''Other'' \<in> set (enum_states m)" using m(2) by (simp add: TASK_STATES_def)
    then obtain e' where e': "task_state e task ''Other'' = (e', None)"
      "map_option enum_state (map_of (tasks e') task) = Some ''Other''"
      "\<forall>t. t \<noteq> task \<longrightarrow> map_of (tasks e') t = map_of (tasks e) t"
      "signals e' = signals e" "uptime e' = uptime e" "warnings e' = warnings e"
      using task_state_sets [OF m(1), of "''Other''"] by auto
    have "status_row e row = (log_warning e' (Unknown_state v task), None)"
      using assms(1-8) False e'(1) by (simp add: status_row_def truthy_def)
    with e' False show ?thesis by (simp add: log_warning_def)
  qed
qed

theorem task_row_sets_state_witness:
  "snd (status_row (init 30) (ex_tr [ex_td ''Cable Modem Status'', ex_td ''Operational''])) = None \<and>
   map_option enum_state (map_of (tasks (fst (status_row (init 30)
       (ex_tr [ex_td ''Cable Modem Status'', ex_td ''Operational''])))) ''Cable Modem Status'')
     = Some ''Operational'' \<and>
   warnings (fst (status_row (init 30)
       (ex_tr [ex_td ''Cable Modem Status'', ex_td ''Operational'']))) = [] \<and>
   snd (status_row (init 30) (ex_tr [ex_td ''Cable Modem Status'', ex_td ''Booting''])) = None \<and>
   map_option enum_state (map_of (tasks (fst (status_row (init 30)
       (ex_tr [ex_td ''Cable Modem Status'', ex_td ''Booting''])))) ''Cable Modem Status'')
     = Some ''Other'' \<and>
   warnings (fst (status_row (init 30)
       (ex_tr [ex_td ''Cable Modem Status'', ex_td ''Booting''])))
     = [Unknown_state ''Booting'' ''Cable Modem Status'']"
proof -
  have cells: "\<And>s. getchildren (ex_tr [ex_td ''Cable Modem Status'', ex_td s]) =
      [ex_td ''Cable Modem Status'', ex_td s]"
    "\<And>s. text_of (ex_td s) = Some s"
    by (simp_all add: ex_defs)
  have strips: "strip ''Cable Modem Status'' = ''Cable Modem Status''"
    "strip ''Operational'' = ''Operational''" "strip ''Booting'' = ''Booting''"
    by (simp_all add: strip_def is_space_def)
  have task: "''Cable Modem Status'' \<in> set TASKS" by (simp add: TASKS_def)
  have w: "warnings (init 30) = []" by (simp add: init_def)
  have "''Operational'' \<in> set TASK_STATES" "''Booting'' \<notin> set TASK_STATES"
    by (simp_all add: TASK_STATES_def)
  with task_row_sets_state [of "ex_tr [ex_td ''Cable Modem Status'', ex_td ''Operational'']"
      "ex_td ''Cable Modem Status''" "ex_td ''Operational''" "''Cable Modem Status''"
      "''Operational''" "''Cable Modem Status''" "''Operational''" "init 30" 30 "[]"]
    task_row_sets_state [of "ex_tr [ex_td ''Cable Modem Status'', ex_td ''Booting'']"
      "ex_td ''Cable Modem Status''" "ex_td ''Booting''" "''Cable Modem Status''"
      "''Booting''" "''Cable Modem Status''" "''Booting''" "init 30" 30 "[]"]
    cells strips task w
  show ?thesis by auto
qed

subsection \<open>Rows and tables of the signal page that raise\<close>

lemma signal_data_keys:
  "map_of SIGNAL_DATA name = Some keys \<Longrightarrow> keys \<noteq> [] \<and> [] \<notin> set keys"
  by (auto simp: SIGNAL_DATA_def split: if_splits)

lemma first_prefix_in_keys:
  "first_prefix keys (Some label) = Inr (Some k) \<Longrightarrow> k \<in> set keys"
  by (induction keys) (auto split: if_splits)

lemma first_prefix_None:
  "keys \<noteq> [] \<Longrightarrow> first_prefix keys None = Inl AttributeError"
  by (cases keys) auto

lemma ints_of_length: "ints_of xs = Inr ns \<Longrightarrow> length ns = length xs"
  by (induction xs arbitrary: ns) (auto split: sum.splits)

lemma zip_strict_mismatch:
  "length cs \<noteq> length vs \<Longrightarrow> \<exists>err. snd (zip_strict e tn k cs vs) = Some err"
proof (induction e tn k cs vs rule: zip_strict.induct)
  case (2 e tn k c cs v vs)
  obtain e' x where r: "set_reading e tn k c v = (e', x)" by (cases "set_reading e tn k c v")
  show ?case
  proof (cases x)
    case None
    with 2 r show ?thesis by simp
  next
    case (Some err)
    with r show ?thesis by simp
  qed
qed simp_all

lemma signal_rows_raises:
  assumes "row \<in> set rows" "\<And>e. \<exists>err. snd (signal_row e tn ids row) = Some err"
  shows "\<exists>err. snd (signal_rows e tn ids rows) = Some err"
  using assms(1)
proof (induction rows arbitrary: e)
  case Nil
  then show ?case by simp
next
  case (Cons r rows)
  obtain e' x where s: "signal_row e tn ids r = (e', x)" by (cases "signal_row e tn ids r")
  show ?case
  proof (cases x)
    case (Some err)
    with s show ?thesis by simp
  next
    case None
    with s assms(2) [of e] have "r \<noteq> row" by auto
    with Cons.prems have "row \<in> set rows" by simp
    from Cons.IH [OF this, of e'] s None show ?thesis by simp
  qed
qed

lemma signal_tables_raises:
  assumes "table \<in> set tables" "\<And>e. \<exists>err. snd (signal_table e table) = Some err"
  shows "\<exists>err. snd (signal_tables e tables) = Some err"
  using assms(1)
proof (induction tables arbitrary: e)
  case Nil
  then show ?case by simp
next
  case (Cons t tables)
  obtain e' x where s: "signal_table e t = (e', x)" by (cases "signal_table e t")
  show ?case
  proof (cases x)
    case (Some err)
    with s show ?thesis by simp
  next
    case None
    with s assms(2) [of e] have "t \<noteq> table" by auto
    with Cons.prems have "table \<in> set tables" by simp
    from Cons.IH [OF this, of e'] s None show ?thesis by simp
  qed
qed

text \<open>A table whose rows are read: if one of its data rows raises whatever the exporter
  and the channel ids are, the page raises.\<close>

lemma update_signal_raises_at_row:
  assumes "table \<in> set (xpath_all ''table'' doc)"
    and "findall_tbody_tr table = header # channels # rows"
    and "header_names header = name # others"
    and "row \<in> set rows"
    and row: "\<And>e ids. length ids = length (drop 1 (findall ''td'' channels)) \<Longrightarrow>
            \<exists>err. snd (signal_row e name ids row) = Some err"
  shows "\<exists>err. snd (update_signal e (Response True doc)) = Some err"
proof -
  have three: "\<not> length (findall_tbody_tr table) < 3"
    using assms(2) assms(4) by (cases rows) auto
  have "\<exists>err. snd (signal_table e table) = Some err" for e
  proof (cases "ints_of (map text_of (drop 1 (findall ''td'' channels)))")
    case (Inl err)
    with three assms(2,3) show ?thesis by (simp add: signal_table_def)
  next
    case (Inr ids)
    then have "length ids = length (drop 1 (findall ''td'' channels))"
      using ints_of_length by fastforce
    then have "\<exists>err. snd (signal_rows e name ids rows) = Some err"
      using signal_rows_raises [OF assms(4)] row by blast
    with Inr three assms(2,3) show ?thesis by (simp add: signal_table_def)
  qed
  then have "\<exists>err. snd (signal_tables e (xpath_all ''table'' doc)) = Some err"
    using signal_tables_raises [OF assms(1)] by blast
  then show ?thesis by (simp add: update_signal_def)
qed

lemma signal_table_unknown_name:
  assumes "findall_tbody_tr table = header # channels # row # rows"
    and "header_names header = name # others"
    and "map_of SIGNAL_DATA name = None"
  shows "signal_table e table =
     (e, Some (case ints_of (map text_of (drop 1 (findall ''td'' channels))) of
                 Inl err \<Rightarrow> err
               | Inr ids \<Rightarrow> if findall ''td'' row = [] then ValueError else KeyError))"
  using assms by (simp add: signal_table_def signal_row_def split: sum.splits list.splits)

text \<open>
  Claim C2, as the code has it. A table with at least three rows whose name is not a
  key of the signal schedule gives no reading and is not skipped: \<^verbatim>\<open>update_signal\<close>
  fails there, with the error of reading a channel id if one cannot be read, else with
  the ValueError of unpacking when the first data row has no cell, else with the
  KeyError of \<^verbatim>\<open>SIGNAL_DATA[table_name]\<close>. The exporter is left as it was and the tables
  after it are not read.
\<close>

theorem unknown_table_raises:
  assumes "findall_tbody_tr table = header # channels # row # rows"
    and "header_names header = name # others"
    and "map_of SIGNAL_DATA name = None"
  shows "signal_table e table =
           (e, Some (case ints_of (map text_of (drop 1 (findall ''td'' channels))) of
                       Inl err \<Rightarrow> err
                     | Inr ids \<Rightarrow> if findall ''td'' row = [] then ValueError else KeyError)) \<and>
         signal_tables e (table # tables) = signal_table e table"
  using signal_table_unknown_name [OF assms, of e] by simp

theorem unknown_table_raises_witness:
  "signal_tables (init 30)
     [ex_table [ex_tr [ex_th ''Event Log''], ex_tr [ex_td ''Channel ID'', ex_td ''1''],
                ex_tr [ex_td ''Power Level'', ex_td ''5.1 dBmV'']],
      ex_table [ex_tr [ex_th ''Downstream''], ex_tr [ex_td ''Channel ID'', ex_td ''1''],
                ex_tr [ex_td ''Power Level'', ex_td ''5.1 dBmV'']]]
   = (init 30, Some KeyError)"
proof -
  let ?header = "ex_tr [ex_th ''Event Log'']"
  let ?channels = "ex_tr [ex_td ''Channel ID'', ex_td ''1'']"
  let ?row = "ex_tr [ex_td ''Power Level'', ex_td ''5.1 dBmV'']"
  have rows: "findall_tbody_tr (ex_table [?header, ?channels, ?row]) = ?header # ?channels # ?row # []"
    by (simp add: findall_tbody_tr_def findall_def ex_defs)
  have name: "header_names ?header = ''Event Log'' # []"
    by (simp add: header_names_def ex_defs strip_def is_space_def)
  have unknown: "map_of SIGNAL_DATA ''Event Log'' = None"
    by (simp add: SIGNAL_DATA_def)
  have ids: "ints_of (map text_of (drop 1 (findall ''td'' ?channels))) = Inr [1]"
    by (simp add: findall_def ex_defs py_int_text_def py_int_def strip_def is_space_def
        is_digit_def digits_val_def digit_val_def)
  have cells: "findall ''td'' ?row \<noteq> []"
    by (simp add: findall_def ex_defs)
  from unknown_table_raises [OF rows name unknown, of "init 30"] ids cells
  show ?thesis by simp
qed

text \<open>The claim as written fails on a page with a table named \<^verbatim>\<open>Event Log\<close> before the
  downstream table: an exception is raised and the downstream table is not read.\<close>

theorem unknown_table_not_skipped:
  "update_signal (init 30)
     (Response True (ex_page
        [ex_table [ex_tr [ex_th ''Event Log''], ex_tr [ex_td ''Channel ID'', ex_td ''1''],
                   ex_tr [ex_td ''Power Level'', ex_td ''5.1 dBmV'']],
         ex_table [ex_tr [ex_th ''Downstream''], ex_tr [ex_td ''Channel ID'', ex_td ''1''],
                   ex_tr [ex_td ''Power Level'', ex_td ''5.1 dBmV'']]]))
   = (init 30, Some KeyError)"
  by (simp add: update_signal_def xpath_all_def ex_defs
     signal_table_def findall_tbody_tr_def findall_def header_names_def strip_def is_space_def
     py_int_text_def py_int_def is_digit_def signal_row_def SIGNAL_DATA_def)

text \<open>
  Claim C6. In a table that is read (three rows or more, a name of the schedule), a data
  row whose label starts with an entry of the schedule and whose number of cells after
  the label differs from the number of cells after the first in the row of channel ids
  makes the row, and with it \<^verbatim>\<open>update_signal\<close>, end with an exception: the row is
  neither skipped nor silently cut to the shorter length.
\<close>

theorem row_length_mismatch_raises:
  assumes "table \<in> set (xpath_all ''table'' doc)"
    and "findall_tbody_tr table = header # channels # rows"
    and "header_names header = name # others"
    and "map_of SIGNAL_DATA name = Some keys"
    and "row \<in> set rows"
    and "map text_of (findall ''td'' row) = Some label # values"
    and "first_prefix keys (Some label) = Inr (Some key)"
    and "length values \<noteq> length (drop 1 (findall ''td'' channels))"
  shows "(\<forall>e' ids. length ids = length (drop 1 (findall ''td'' channels)) \<longrightarrow>
            (\<exists>err. snd (signal_row e' name ids row) = Some err)) \<and>
         (\<exists>err. snd (update_signal e (Response True doc)) = Some err)"
proof -
  have key: "key \<noteq> []"
    using first_prefix_in_keys [OF assms(7)] signal_data_keys [OF assms(4)] by auto
  have row: "\<exists>err. snd (signal_row e' name ids row) = Some err"
    if "length ids = length (drop 1 (findall ''td'' channels))" for e' ids
  proof -
    have "length ids \<noteq> length values" using that assms(8) by simp
    from zip_strict_mismatch [OF this, of e' name key] assms(4,6,7) key
    show ?thesis by (simp add: signal_row_def)
  qed
  from update_signal_raises_at_row [OF assms(1,2,3,5) row] row show ?thesis by blast
qed

theorem row_length_mismatch_raises_witness:
  "snd (update_signal (init 30)
     (Response True (ex_page
        [ex_table [ex_tr [ex_th ''Downstream''],
                   ex_tr [ex_td ''Channel ID'', ex_td ''1'', ex_td ''2'', ex_td ''3''],
                   ex_tr [ex_td ''Power Level'', ex_td ''5.1 dBmV'', ex_td ''4.9 dBmV'']]])))
   \<noteq> None"
proof -
  let ?header = "ex_tr [ex_th ''Downstream'']"
  let ?channels = "ex_tr [ex_td ''Channel ID'', ex_td ''1'', ex_td ''2'', ex_td ''3'']"
  let ?row = "ex_tr [ex_td ''Power Level'', ex_td ''5.1 dBmV'', ex_td ''4.9 dBmV'']"
  let ?table = "ex_table [?header, ?channels, ?row]"
  let ?keys = "[''Frequency'', ''Signal to Noise Ratio'', ''Downstream Modulation'', ''Power Level'']"
  have t: "?table \<in> set (xpath_all ''table'' (ex_page [?table]))"
    by (simp add: xpath_all_def ex_defs)
  have rows: "findall_tbody_tr ?table = ?header # ?channels # [?row]"
    by (simp add: findall_tbody_tr_def findall_def ex_defs)
  have name: "header_names ?header = ''Downstream'' # []"
    by (simp add: header_names_def ex_defs strip_def is_space_def)
  have keys: "map_of SIGNAL_DATA ''Downstream'' = Some ?keys"
    by (simp add: SIGNAL_DATA_def)
  have r: "?row \<in> set [?row]" by simp
  have cells: "map text_of (findall ''td'' ?row) = Some ''Power Level'' # [Some ''5.1 dBmV'', Some ''4.9 dBmV'']"
    by (simp add: findall_def ex_defs)
  have key: "first_prefix ?keys (Some ''Power Level'') = Inr (Some ''Power Level'')"
    by simp
  have len: "length [Some ''5.1 dBmV'', Some ''4.9 dBmV''] \<noteq> length (drop 1 (findall ''td'' ?channels))"
    by (simp add: findall_def ex_defs)
  from row_length_mismatch_raises [OF t rows name keys r cells key len, of "init 30"]
  show ?thesis by auto
qed

text \<open>The pairs of a strict zip are handed out one by one: on the page of the example,
  the first two channels have their readings set before the ValueError is raised for
  the third.\<close>

lemma mismatch_sets_common_prefix:
  "snd (update_signal (init 30)
     (Response True (ex_page
        [ex_table [ex_tr [ex_th ''Downstream''],
                   ex_tr [ex_td ''Channel ID'', ex_td ''1'', ex_td ''2'', ex_td ''3''],
                   ex_tr [ex_td ''Power Level'', ex_td ''5.1 dBmV'', ex_td ''4.9 dBmV'']]])))
     = Some ValueError \<and>
   map_option cg_children (map_of (signals (fst (update_signal (init 30)
     (Response True (ex_page
        [ex_table [ex_tr [ex_th ''Downstream''],
                   ex_tr [ex_td ''Channel ID'', ex_td ''1'', ex_td ''2'', ex_td ''3''],
                   ex_tr [ex_td ''Power Level'', ex_td ''5.1 dBmV'', ex_td ''4.9 dBmV'']]])))))
      (''Downstream'', ''Power Level''))
     = Some [(1, 51 / 10), (2, 49 / 10)]"
  by (simp add: update_signal_def xpath_all_def ex_defs
     signal_table_def findall_tbody_tr_def findall_def header_names_def strip_def is_space_def
     py_int_text_def py_int_def is_digit_def digits_val_def digit_val_def signal_row_def
     SIGNAL_DATA_def set_reading_def float_match_cases init_def)

text \<open>
  Claim C10. In a table that is read (three rows or more, a name of the schedule), a data
  row without cells raises the ValueError of unpacking, and a data row whose first cell
  has no text raises the AttributeError of \<^verbatim>\<open>None.startswith\<close>; with such a row in the
  table \<^verbatim>\<open>update_signal\<close> ends with an exception, instead of skipping the row.
\<close>

theorem row_without_label_raises:
  assumes "table \<in> set (xpath_all ''table'' doc)"
    and "findall_tbody_tr table = header # channels # rows"
    and "header_names header = name # others"
    and "map_of SIGNAL_DATA name = Some keys"
    and "row \<in> set rows"
    and "case map text_of (findall ''td'' row) of [] \<Rightarrow> True | label # values \<Rightarrow> label = None"
  shows "(\<forall>e' ids. signal_row e' name ids row =
            (e', Some (if findall ''td'' row = [] then ValueError else AttributeError))) \<and>
         (\<exists>err. snd (update_signal e (Response True doc)) = Some err)"
proof -
  have keys: "keys \<noteq> []" using signal_data_keys [OF assms(4)] by simp
  have row: "signal_row e' name ids row =
            (e', Some (if findall ''td'' row = [] then ValueError else AttributeError))" for e' ids
    using assms(4,6) first_prefix_None [OF keys]
    by (auto simp: signal_row_def split: list.splits)
  then have "\<exists>err. snd (signal_row e' name ids row) = Some err" for e' ids by simp
  from update_signal_raises_at_row [OF assms(1,2,3,5) this] row show ?thesis by blast
qed

theorem row_without_label_raises_witness:
  "signal_row (init 30) ''Downstream'' [1]
     (ex_tr [Elem ''td'' None [Elem ''b'' (Some ''Power Level'') []], ex_td ''5.1 dBmV''])
     = (init 30, Some AttributeError) \<and>
   snd (update_signal (init 30)
     (Response True (ex_page
        [ex_table [ex_tr [ex_th ''Downstream''],
                   ex_tr [ex_td ''Channel ID'', ex_td ''1''],
                   ex_tr [Elem ''td'' None [Elem ''b'' (Some ''Power Level'') []], ex_td ''5.1 dBmV'']]])))
     \<noteq> None \<and>
   signal_row (init 30) ''Downstream'' [1] (ex_tr []) = (init 30, Some ValueError) \<and>
   snd (update_signal (init 30)
     (Response True (ex_page
        [ex_table [ex_tr [ex_th ''Downstream''],
                   ex_tr [ex_td ''Channel ID'', ex_td ''1''],
                   ex_tr []]])))
     \<noteq> None"
proof -
  let ?header = "ex_tr [ex_th ''Downstream'']"
  let ?channels = "ex_tr [ex_td ''Channel ID'', ex_td ''1'']"
  let ?row = "ex_tr [Elem ''td'' None [Elem ''b'' (Some ''Power Level'') []], ex_td ''5.1 dBmV'']"
  let ?keys = "[''Frequency'', ''Signal to Noise Ratio'', ''Downstream Modulation'', ''Power Level'']"
  have t: "ex_table [?header, ?channels, r] \<in> set (xpath_all ''table'' (ex_page [ex_table [?header, ?channels, r]]))" for r
    by (simp add: xpath_all_def ex_defs)
  have rows: "findall_tbody_tr (ex_table [?header, ?channels, r]) = ?header # ?channels # [r]"
    if "tag r = ''tr''" for r
    using that by (simp add: findall_tbody_tr_def findall_def ex_defs)
  have tags: "tag ?row = ''tr''" "tag (ex_tr []) = ''tr''" by (simp_all add: ex_defs)
  have name: "header_names ?header = ''Downstream'' # []"
    by (simp add: header_names_def ex_defs strip_def is_space_def)
  have keys: "map_of SIGNAL_DATA ''Downstream'' = Some ?keys"
    by (simp add: SIGNAL_DATA_def)
  have c1: "case map text_of (findall ''td'' ?row) of [] \<Rightarrow> True | label # values \<Rightarrow> label = None"
    and n1: "findall ''td'' ?row \<noteq> []"
    by (simp_all add: findall_def ex_defs)
  have c2: "case map text_of (findall ''td'' (ex_tr [])) of [] \<Rightarrow> True | label # values \<Rightarrow> label = None"
    and n2: "findall ''td'' (ex_tr []) = []"
    by (simp_all add: findall_def ex_defs)
  have in1: "?row \<in> set [?row]" and in2: "ex_tr [] \<in> set [ex_tr []]" by simp_all
  from row_without_label_raises [OF t rows [OF tags(1)] name keys in1 c1]
    row_without_label_raises [OF t rows [OF tags(2)] name keys in2 c2]
    n1 n2
  show ?thesis by auto
qed

end
